theory Spec2Isabelle
  imports Main "HOL-Library.Word"
begin

section \<open>The DreamSaver contract\<close>

text \<open>
  A shallow embedding of the Solidity contract \<^verbatim>\<open>DreamSaver\<close> (pragma \<^verbatim>\<open>^0.8.20\<close>).
  \<^item> \<^verbatim>\<open>uint256\<close> is a 256-bit word and \<^verbatim>\<open>address\<close> a 160-bit word. Arithmetic of
    Solidity 0.8 is checked: \<^verbatim>\<open>nextGoalId++\<close> and \<^verbatim>\<open>balance += msg.value\<close> revert with
    \<^verbatim>\<open>Panic(0x11)\<close> instead of wrapping around.
  \<^item> A \<^verbatim>\<open>mapping\<close> is a total function: a key never written holds the zero value.
  \<^item> \<^verbatim>\<open>require(c, msg)\<close> is a branch returning \<open>Inl (Revert msg)\<close>. A call that reverts
    leaves no trace: it returns no state, and its caller goes on with the state it had.
  \<^item> \<^verbatim>\<open>msg.sender\<close>, \<^verbatim>\<open>msg.value\<close> and \<^verbatim>\<open>block.timestamp\<close> are explicit arguments.
  \<^item> The events emitted and the ether held at the contract's address are fields of the
    state, next to the three storage variables.
\<close>

type_synonym uint256 = "256 word"
type_synonym address = "160 word"

record SavingGoal =
  owner :: address
  title :: string
  description :: string
  targetAmount :: uint256
  deadline :: uint256
  balance :: uint256
  isWithdrawn :: bool

datatype event =
    GoalCreated uint256 address uint256 uint256
  | Deposited uint256 address uint256 uint256
  | Withdrawn uint256 address uint256

datatype error = Revert string | Panic

record DreamSaver =
  goals :: "uint256 \<Rightarrow> SavingGoal"
  ownerGoals :: "address \<Rightarrow> uint256 list"
  nextGoalId :: uint256
  emitted :: "event list"
  held :: nat

text \<open>The zero value of the struct, and the contract right after deployment.\<close>

definition zeroGoal :: SavingGoal where
  "zeroGoal = \<lparr>owner = 0, title = [], description = [], targetAmount = 0, deadline = 0,
     balance = 0, isWithdrawn = False\<rparr>"

definition deployed :: DreamSaver where
  "deployed = \<lparr>goals = (\<lambda>_. zeroGoal), ownerGoals = (\<lambda>_. []), nextGoalId = 0,
     emitted = [], held = 0\<rparr>"

definition goalExists :: "DreamSaver \<Rightarrow> uint256 \<Rightarrow> bool" where
  "goalExists s goalId = (goalId < nextGoalId s)"

text \<open>Checked addition of two \<^verbatim>\<open>uint256\<close>.\<close>

definition checkedAdd :: "uint256 \<Rightarrow> uint256 \<Rightarrow> error + uint256" where
  "checkedAdd a b = (if unat a + unat b < 2 ^ 256 then Inr (a + b) else Inl Panic)"

subsection \<open>createGoal\<close>

definition createGoal ::
  "DreamSaver \<Rightarrow> address \<Rightarrow> uint256 \<Rightarrow> string \<Rightarrow> string \<Rightarrow> uint256 \<Rightarrow> uint256
     \<Rightarrow> error + (uint256 \<times> DreamSaver)" where
  "createGoal s sender now ttl descr target dl =
     (if \<not> target > 0 then Inl (Revert ''Target amount must be greater than 0'')
      else if \<not> dl > now then Inl (Revert ''Deadline must be in the future'')
      else if \<not> length ttl > 0 then Inl (Revert ''Title cannot be empty'')
      else
        let goalId = nextGoalId s in
        (case checkedAdd (nextGoalId s) 1 of
           Inl e \<Rightarrow> Inl e
         | Inr n \<Rightarrow>
             Inr (goalId,
               s\<lparr>nextGoalId := n,
                 goals := (goals s)(goalId :=
                   \<lparr>owner = sender, title = ttl, description = descr, targetAmount = target,
                    deadline = dl, balance = 0, isWithdrawn = False\<rparr>),
                 ownerGoals := (ownerGoals s)(sender := ownerGoals s sender @ [goalId]),
                 emitted := emitted s @ [GoalCreated goalId sender target dl]\<rparr>)))"

subsection \<open>deposit\<close>

text \<open>
  The function is \<^verbatim>\<open>payable\<close>: the ether sent with the call, \<^verbatim>\<open>msg.value\<close>, is at the
  contract's address when the body has run, and goes back to the sender when it reverts.
\<close>

definition deposit :: "DreamSaver \<Rightarrow> address \<Rightarrow> uint256 \<Rightarrow> uint256 \<Rightarrow> error + DreamSaver" where
  "deposit s sender val goalId =
     (if \<not> goalExists s goalId then Inl (Revert ''Goal does not exist'')
      else if \<not> val > 0 then Inl (Revert ''Deposit amount must be greater than 0'')
      else if isWithdrawn (goals s goalId) then Inl (Revert ''Goal has already been withdrawn'')
      else
        (case checkedAdd (balance (goals s goalId)) val of
           Inl e \<Rightarrow> Inl e
         | Inr b \<Rightarrow>
             Inr (s\<lparr>goals := (goals s)(goalId := (goals s goalId)\<lparr>balance := b\<rparr>),
                    emitted := emitted s @ [Deposited goalId sender val b],
                    held := held s + unat val\<rparr>)))"

subsection \<open>withdraw\<close>

text \<open>
  The external call \<^verbatim>\<open>payable(msg.sender).call{value: amount}("")\<close> is the argument
  \<open>xfer\<close>: it gets the contract as it is when the call is made, the recipient and the
  amount, and gives back the flag \<^verbatim>\<open>success\<close> and the contract as the recipient's code
  left it.
\<close>

type_synonym transfer = "DreamSaver \<Rightarrow> address \<Rightarrow> uint256 \<Rightarrow> bool \<times> DreamSaver"

definition withdraw :: "transfer \<Rightarrow> DreamSaver \<Rightarrow> address \<Rightarrow> uint256 \<Rightarrow> uint256 \<Rightarrow> error + DreamSaver" where
  "withdraw xfer s sender now goalId =
     (if \<not> goalExists s goalId then Inl (Revert ''Goal does not exist'')
      else if \<not> sender = owner (goals s goalId) then Inl (Revert ''Only goal owner can withdraw'')
      else if isWithdrawn (goals s goalId) then Inl (Revert ''Goal has already been withdrawn'')
      else
        let goal = goals s goalId;
            deadlinePassed = (now \<ge> deadline goal);
            targetReached = (balance goal \<ge> targetAmount goal)
        in
        if \<not> (deadlinePassed \<or> targetReached)
        then Inl (Revert ''Cannot withdraw: deadline not passed and target not reached'')
        else
          let amount = balance goal in
          if \<not> amount > 0 then Inl (Revert ''No balance to withdraw'')
          else
            let s1 = s\<lparr>goals := (goals s)(goalId := goal\<lparr>isWithdrawn := True, balance := 0\<rparr>)\<rparr>;
                (success, s2) = xfer s1 sender amount
            in
            if \<not> success then Inl (Revert ''Transfer failed'')
            else Inr (s2\<lparr>emitted := emitted s2 @ [Withdrawn goalId sender amount]\<rparr>))"

subsection \<open>The view functions\<close>

definition getGoal :: "DreamSaver \<Rightarrow> uint256 \<Rightarrow> error + SavingGoal" where
  "getGoal s goalId =
     (if \<not> goalExists s goalId then Inl (Revert ''Goal does not exist'')
      else Inr (goals s goalId))"

definition getGoalsByOwner :: "DreamSaver \<Rightarrow> address \<Rightarrow> uint256 list" where
  "getGoalsByOwner s a = ownerGoals s a"

definition getTotalGoals :: "DreamSaver \<Rightarrow> uint256" where
  "getTotalGoals s = nextGoalId s"

definition canWithdraw :: "DreamSaver \<Rightarrow> uint256 \<Rightarrow> uint256 \<Rightarrow> bool" where
  "canWithdraw s now goalId =
     (if \<not> goalExists s goalId then False
      else
        let goal = goals s goalId in
        if isWithdrawn goal then False
        else if balance goal = 0 then False
        else
          let deadlinePassed = (now \<ge> deadline goal);
              targetReached = (balance goal \<ge> targetAmount goal)
          in deadlinePassed \<or> targetReached)"

subsection \<open>Calls, and what the recipient of a transfer does\<close>

text \<open>
  A call of one of the three mutating functions. The recipient of the ether sent by
  \<^verbatim>\<open>withdraw\<close> runs code of its own before the call returns: \<open>Withdraw sender goalId cs ok\<close>
  says that this code makes the calls \<open>cs\<close> to the contract, in this order, and then
  returns (\<open>ok\<close>) or reverts.  A call among \<open>cs\<close> that reverts is caught by the recipient,
  which goes on with the next one.  The calls of \<open>cs\<close> may be withdrawals themselves, with
  recipients that call back in turn.  The contract is deterministic, so what the code of
  a recipient does in one run, whatever it reads and decides, is one such list.
\<close>

datatype call =
    CreateGoal address string string uint256 uint256
  | Deposit address uint256 uint256
  | Withdraw address uint256 "call list" bool

text \<open>
  \<open>exec\<close> runs one call at block time \<open>now\<close>; \<open>run\<close> runs the calls a recipient makes.
  The transfer fails when the contract holds less than the amount or when the recipient
  reverts; what the recipient did is undone then.
\<close>

fun exec :: "uint256 \<Rightarrow> DreamSaver \<Rightarrow> call \<Rightarrow> error + DreamSaver"
  and run :: "uint256 \<Rightarrow> DreamSaver \<Rightarrow> call list \<Rightarrow> DreamSaver" where
  "exec now s (CreateGoal sender ttl descr target dl) =
     (case createGoal s sender now ttl descr target dl of
        Inl e \<Rightarrow> Inl e
      | Inr (goalId, s') \<Rightarrow> Inr s')"
| "exec now s (Deposit sender val goalId) = deposit s sender val goalId"
| "exec now s (Withdraw sender goalId cs ok) =
     withdraw
       (\<lambda>s1 to amount.
          if held s1 < unat amount \<or> \<not> ok then (False, s1)
          else (True, run now (s1\<lparr>held := held s1 - unat amount\<rparr>) cs))
       s sender now goalId"
| "run now s [] = s"
| "run now s (c # cs) =
     (case exec now s c of
        Inl e \<Rightarrow> run now s cs
      | Inr s' \<Rightarrow> run now s' cs)"

text \<open>The states the contract can be in between transactions.\<close>

inductive reachable :: "DreamSaver \<Rightarrow> bool" where
  init: "reachable deployed"
| step: "reachable s \<Longrightarrow> exec now s c = Inr s' \<Longrightarrow> reachable s'"

text \<open>
  The contract after a transaction that makes the call \<open>c\<close>: a transaction that reverts
  changes nothing.
\<close>

definition step :: "uint256 \<Rightarrow> DreamSaver \<Rightarrow> call \<Rightarrow> DreamSaver" where
  "step now s c = (case exec now s c of Inl e \<Rightarrow> s | Inr s' \<Rightarrow> s')"

subsection \<open>Properties of the contract's state\<close>

text \<open>
  Goal \<open>g\<close> is \<open>frozen\<close> when it exists, is withdrawn and is empty; the contract is
  \<open>settled\<close> when every goal marked withdrawn is so. \<open>createdBy a es\<close> lists the ids in the
  events \<^verbatim>\<open>GoalCreated\<close> of the log \<open>es\<close> whose owner is \<open>a\<close>, in the order of the log.
\<close>

definition frozen :: "uint256 \<Rightarrow> DreamSaver \<Rightarrow> bool" where
  "frozen g s = (goalExists s g \<and> isWithdrawn (goals s g) \<and> balance (goals s g) = 0)"

definition settled :: "DreamSaver \<Rightarrow> bool" where
  "settled s = (\<forall>g. isWithdrawn (goals s g) \<longrightarrow> frozen g s)"

definition createdBy :: "address \<Rightarrow> event list \<Rightarrow> uint256 list" where
  "createdBy a es =
     concat (map (\<lambda>e. case e of GoalCreated g who _ _ \<Rightarrow> if who = a then [g] else [] | _ \<Rightarrow> []) es)"

definition chronological :: "DreamSaver \<Rightarrow> bool" where
  "chronological s = (\<forall>a. ownerGoals s a = createdBy a (emitted s))"

definition indexed :: "DreamSaver \<Rightarrow> bool" where
  "indexed s = (\<forall>a. sorted_wrt (<) (ownerGoals s a) \<and>
     set (ownerGoals s a) = {g. goalExists s g \<and> owner (goals s g) = a})"

text \<open>
  \<open>withdrawals g es\<close> counts the events \<^verbatim>\<open>Withdrawn\<close> of goal \<open>g\<close> in the log \<open>es\<close>: the
  transfers of the balance of \<open>g\<close> that were made and not undone. \<open>paidTimes g n\<close> holds
  when \<open>g\<close> is frozen and has been paid \<open>n\<close> times; \<open>paidOnce g\<close> when \<open>g\<close> has been paid
  once if it is marked withdrawn, and never otherwise.
\<close>

definition withdrawals :: "uint256 \<Rightarrow> event list \<Rightarrow> nat" where
  "withdrawals g es =
     length (filter (\<lambda>e. case e of Withdrawn g' _ _ \<Rightarrow> g' = g | _ \<Rightarrow> False) es)"

definition paidTimes :: "uint256 \<Rightarrow> nat \<Rightarrow> DreamSaver \<Rightarrow> bool" where
  "paidTimes g n s = (frozen g s \<and> withdrawals g (emitted s) = n)"

definition paidOnce :: "uint256 \<Rightarrow> DreamSaver \<Rightarrow> bool" where
  "paidOnce g s = ((isWithdrawn (goals s g) \<longrightarrow> frozen g s) \<and>
     withdrawals g (emitted s) = (if isWithdrawn (goals s g) then 1 else 0))"

text \<open>
  \<open>owed s\<close> is the sum of the balances of all goals; the contract is \<open>solvent\<close> when it
  holds at least that much.
\<close>

definition owed :: "DreamSaver \<Rightarrow> nat" where
  "owed s = (\<Sum>g \<in> UNIV. unat (balance (goals s g)))"

definition solvent :: "DreamSaver \<Rightarrow> bool" where
  "solvent s = (owed s \<le> held s)"

subsection \<open>Recipients and states for examples\<close>

text \<open>A recipient that takes the ether and does nothing else, and one that refuses it.\<close>

definition accept :: transfer where
  "accept s to amount = (True, s)"

definition refuse :: transfer where
  "refuse s to amount = (False, s)"

text \<open>
  Three goals, created at time 10 by the addresses 1, 2 and 1, with deadline 100; goal 0
  has received 7 for a target of 5, goal 1 nothing, goal 2 has received 1 for a target of 9.
  In \<open>paidOut\<close> the owner of goal 0 has withdrawn it.
\<close>

definition funded :: DreamSaver where
  "funded = run 10 deployed
     [CreateGoal 1 ''Car'' ''a used one'' 5 100,
      CreateGoal 2 ''Bike'' [] 2 100,
      CreateGoal 1 ''Trip'' [] 9 100,
      Deposit 2 3 0,
      Deposit 3 4 0,
      Deposit 3 1 2]"

definition paidOut :: DreamSaver where
  "paidOut = step 10 funded (Withdraw 1 0 [] True)"



text \<open>
  The contract \<open>funded\<close> as the recipient of the balance of goal 0 finds it, and after a
  withdrawal of goal 0 whose recipient calls back: it tries to withdraw goal 0 again, to
  deposit into it, to withdraw goal 2, and deposits 1 into goal 1.
\<close>

definition midTransfer :: DreamSaver where
  "midTransfer = funded\<lparr>goals := (goals funded)(0 := (goals funded 0)\<lparr>isWithdrawn := True, balance := 0\<rparr>),
     held := held funded - unat (balance (goals funded 0))\<rparr>"

definition reentered :: DreamSaver where
  "reentered = step 10 funded
     (Withdraw 1 0 [Withdraw 1 0 [] True, Deposit 1 5 0, Withdraw 1 2 [] True, Deposit 2 1 1] True)"

section \<open>Basic facts\<close>

lemmas contract_defs = createGoal_def deposit_def withdraw_def canWithdraw_def getGoal_def
  getGoalsByOwner_def getTotalGoals_def goalExists_def checkedAdd_def deployed_def zeroGoal_def
  Let_def

lemma funded_goals:
  "nextGoalId funded = 3"
  "goals funded 0 = \<lparr>owner = 1, title = ''Car'', description = ''a used one'', targetAmount = 5,
     deadline = 100, balance = 7, isWithdrawn = False\<rparr>"
  "goals funded 1 = \<lparr>owner = 2, title = ''Bike'', description = [], targetAmount = 2,
     deadline = 100, balance = 0, isWithdrawn = False\<rparr>"
  "goals funded 2 = \<lparr>owner = 1, title = ''Trip'', description = [], targetAmount = 9,
     deadline = 100, balance = 1, isWithdrawn = False\<rparr>"
  "held funded = 8"
  by (simp_all add: funded_def contract_defs)

lemma paidOut_goals:
  "nextGoalId paidOut = 3"
  "goals paidOut 0 = \<lparr>owner = 1, title = ''Car'', description = ''a used one'', targetAmount = 5,
     deadline = 100, balance = 0, isWithdrawn = True\<rparr>"
  "held paidOut = 1"
  by (simp_all add: paidOut_def step_def funded_goals withdraw_def goalExists_def Let_def)

lemma withdraw_Inr:
  "withdraw xfer s sender now g = Inr s' \<longleftrightarrow>
     goalExists s g \<and> sender = owner (goals s g) \<and> \<not> isWithdrawn (goals s g) \<and>
     (deadline (goals s g) \<le> now \<or> targetAmount (goals s g) \<le> balance (goals s g)) \<and>
     0 < balance (goals s g) \<and>
     (\<exists>s2. xfer (s\<lparr>goals := (goals s)(g := (goals s g)\<lparr>isWithdrawn := True, balance := 0\<rparr>)\<rparr>)
              sender (balance (goals s g)) = (True, s2) \<and>
           s' = s2\<lparr>emitted := emitted s2 @ [Withdrawn g sender (balance (goals s g))]\<rparr>)"
  by (auto simp: withdraw_def Let_def split: prod.splits)

lemma exec_Withdraw_Inr:
  "exec now s (Withdraw sender g cs ok) = Inr s' \<longleftrightarrow>
     goalExists s g \<and> sender = owner (goals s g) \<and> \<not> isWithdrawn (goals s g) \<and>
     (deadline (goals s g) \<le> now \<or> targetAmount (goals s g) \<le> balance (goals s g)) \<and>
     0 < balance (goals s g) \<and> unat (balance (goals s g)) \<le> held s \<and> ok \<and>
     s' = (run now (s\<lparr>goals := (goals s)(g := (goals s g)\<lparr>isWithdrawn := True, balance := 0\<rparr>),
                      held := held s - unat (balance (goals s g))\<rparr>) cs)
          \<lparr>emitted := emitted (run now (s\<lparr>goals := (goals s)(g := (goals s g)\<lparr>isWithdrawn := True, balance := 0\<rparr>),
                      held := held s - unat (balance (goals s g))\<rparr>) cs) @
                    [Withdrawn g sender (balance (goals s g))]\<rparr>"
  by (auto simp: withdraw_Inr)

lemma run_Cons_step: "run now s (c # cs) = run now (step now s c) cs"
  by (simp add: step_def split: sum.splits)

lemma unat_max_uint256: "unat (- 1 :: uint256) = 2 ^ 256 - 1"
  by (simp add: unsigned_minus_1_eq_mask mask_eq_exp_minus_1)

lemma unat_checked:
  fixes a b :: uint256
  shows "unat a + unat b < 2 ^ 256 \<Longrightarrow> unat (a + b) = unat a + unat b"
  using unat_add_lem [of a b] by simp

lemma unat_succ:
  fixes n :: uint256
  shows "unat n + 1 < 2 ^ 256 \<Longrightarrow> unat (n + 1) = unat n + 1"
  using unat_checked [of n 1] by simp

lemma succ_fits_iff:
  fixes n :: uint256
  shows "unat n + 1 < 2 ^ 256 \<longleftrightarrow> n \<noteq> - 1"
proof
  assume "unat n + 1 < 2 ^ 256"
  then show "n \<noteq> - 1" by (auto simp: unat_max_uint256)
next
  assume "n \<noteq> - 1"
  then have "unat n \<noteq> unat (- 1 :: uint256)" by (simp add: word_unat_eq_iff)
  moreover have "unat n < 2 ^ 256" using unsigned_less [of n, where ?'a = nat] by simp
  ultimately show "unat n + 1 < 2 ^ 256" by (simp add: unat_max_uint256)
qed

lemma less_succ_iff:
  fixes g n :: uint256
  assumes "unat n + 1 < 2 ^ 256"
  shows "g < n + 1 \<longleftrightarrow> g < n \<or> g = n"
  using assms by (auto simp: word_less_nat_alt unat_succ word_unat_eq_iff)

lemma createGoal_Inr:
  "createGoal s sender now ttl descr target dl = Inr (g, s') \<longleftrightarrow>
     0 < target \<and> now < dl \<and> ttl \<noteq> [] \<and> nextGoalId s \<noteq> - 1 \<and> g = nextGoalId s \<and>
     s' = s\<lparr>nextGoalId := nextGoalId s + 1,
            goals := (goals s)(nextGoalId s :=
              \<lparr>owner = sender, title = ttl, description = descr, targetAmount = target,
               deadline = dl, balance = 0, isWithdrawn = False\<rparr>),
            ownerGoals := (ownerGoals s)(sender := ownerGoals s sender @ [nextGoalId s]),
            emitted := emitted s @ [GoalCreated (nextGoalId s) sender target dl]\<rparr>"
  using succ_fits_iff [of "nextGoalId s"]
  by (auto simp: createGoal_def Let_def checkedAdd_def split: sum.splits)

lemma createGoal_Panic:
  "0 < target \<Longrightarrow> now < dl \<Longrightarrow> ttl \<noteq> [] \<Longrightarrow> nextGoalId s = - 1 \<Longrightarrow>
     createGoal s sender now ttl descr target dl = Inl Panic"
  by (simp add: createGoal_def Let_def checkedAdd_def unat_max_uint256)

lemma deposit_Inr:
  "deposit s sender val g = Inr s' \<longleftrightarrow>
     goalExists s g \<and> 0 < val \<and> \<not> isWithdrawn (goals s g) \<and>
     unat (balance (goals s g)) + unat val < 2 ^ 256 \<and>
     s' = s\<lparr>goals := (goals s)(g := (goals s g)\<lparr>balance := balance (goals s g) + val\<rparr>),
            emitted := emitted s @ [Deposited g sender val (balance (goals s g) + val)],
            held := held s + unat val\<rparr>"
  by (auto simp: deposit_def checkedAdd_def)



lemma funded_index:
  "ownerGoals funded 1 = [0, 2]" "ownerGoals funded 2 = [1]" "ownerGoals funded 3 = []"
  by (simp_all add: funded_def contract_defs)


section \<open>What every call preserves\<close>

text \<open>
  A property of the contract that \<^verbatim>\<open>createGoal\<close> and \<^verbatim>\<open>deposit\<close> preserve, and that the
  three steps of a successful \<^verbatim>\<open>withdraw\<close> preserve (the two assignments, the ether
  leaving, the event), is preserved by every call, whatever the recipients do.
\<close>

lemma exec_run_preserve:
  assumes create: "\<And>s sender now ttl descr target dl g s'.
      P s \<Longrightarrow> createGoal s sender now ttl descr target dl = Inr (g, s') \<Longrightarrow> P s'"
    and dep: "\<And>s sender val g s'. P s \<Longrightarrow> deposit s sender val g = Inr s' \<Longrightarrow> P s'"
    and fin: "\<And>s g. P s \<Longrightarrow> goalExists s g \<Longrightarrow> \<not> isWithdrawn (goals s g) \<Longrightarrow>
      P (s\<lparr>goals := (goals s)(g := (goals s g)\<lparr>isWithdrawn := True, balance := 0\<rparr>)\<rparr>)"
    and pay: "\<And>s n. P s \<Longrightarrow> P (s\<lparr>held := n\<rparr>)"
    and emit: "\<And>s0 s g sender amount. P s0 \<Longrightarrow> goalExists s0 g \<Longrightarrow> \<not> isWithdrawn (goals s0 g) \<Longrightarrow>
      P s \<Longrightarrow> P (s\<lparr>emitted := emitted s @ [Withdrawn g sender amount]\<rparr>)"
  shows "P s \<longrightarrow> (\<forall>s'. exec now s c = Inr s' \<longrightarrow> P s')" and "P s \<longrightarrow> P (run now s cs)"
proof (induction now s c and now s cs rule: exec_run.induct)
  case (1 now s sender ttl descr target dl)
  then show ?case by (auto split: sum.splits dest: create)
next
  case (2 now s sender val goalId)
  then show ?case by (auto dest: dep)
next
  case (3 now s sender goalId cs ok)
  show ?case
  proof (intro impI allI)
    fix s' assume P: "P s" and ex: "exec now s (Withdraw sender goalId cs ok) = Inr s'"
    let ?a = "balance (goals s goalId)"
    let ?s1 = "s\<lparr>goals := (goals s)(goalId := (goals s goalId)\<lparr>isWithdrawn := True, balance := 0\<rparr>)\<rparr>"
    let ?s2 = "run now (?s1\<lparr>held := held ?s1 - unat ?a\<rparr>) cs"
    from ex have pre: "goalExists s goalId" "\<not> isWithdrawn (goals s goalId)"
      and ok: "\<not> (held ?s1 < unat ?a \<or> \<not> ok)"
      and s': "s' = ?s2\<lparr>emitted := emitted ?s2 @ [Withdrawn goalId sender ?a]\<rparr>"
      unfolding exec_Withdraw_Inr by auto
    have "P ?s1" using P pre by (rule fin)
    then have "P (?s1\<lparr>held := held ?s1 - unat ?a\<rparr>)" by (rule pay)
    with 3 [OF ok] have "P ?s2" by blast
    with P pre show "P s'" unfolding s' by (rule emit)
  qed
next
  case (4 now s)
  then show ?case by simp
next
  case (5 now s c cs)
  then show ?case by (auto split: sum.splits)
qed


lemma reachable_run: "reachable s \<Longrightarrow> reachable (run now s cs)"
  by (induction cs arbitrary: s) (auto split: sum.splits intro: reachable.step)

lemma reachable_step: "reachable s \<Longrightarrow> reachable (step now s c)"
  by (auto simp: step_def split: sum.splits intro: reachable.step)

lemma counter_reachable: "\<exists>s. reachable s \<and> nextGoalId s = n"
proof (induction n rule: word_induct2)
  case zero
  have "nextGoalId deployed = 0" by (simp add: deployed_def)
  with reachable.init show ?case by blast
next
  case (suc n)
  then obtain s where s: "reachable s" "nextGoalId s = n" by blast
  from suc(1) have "n \<noteq> - 1" by auto
  with s(2) have "createGoal s 1 10 ''Car'' [] 5 100 =
      Inr (n, s\<lparr>nextGoalId := n + 1,
            goals := (goals s)(n :=
              \<lparr>owner = 1, title = ''Car'', description = [], targetAmount = 5,
               deadline = 100, balance = 0, isWithdrawn = False\<rparr>),
            ownerGoals := (ownerGoals s)(1 := ownerGoals s 1 @ [n]),
            emitted := emitted s @ [GoalCreated n 1 5 100]\<rparr>)" (is "_ = Inr (n, ?t)")
    by (simp add: createGoal_Inr)
  then have "exec 10 s (CreateGoal 1 ''Car'' [] 5 100) = Inr ?t" by simp
  with s(1) have "reachable ?t" by (rule reachable.step)
  moreover have "nextGoalId ?t = 1 + n" by simp
  ultimately show ?case by blast
qed

lemma counter_overflow_reachable:
  "\<exists>s. reachable s \<and> createGoal s 1 10 ''Car'' [] 5 100 = Inl Panic"
proof -
  obtain s where "reachable s" "nextGoalId s = - 1" using counter_reachable by blast
  then show ?thesis by (auto intro!: exI [of _ s] createGoal_Panic)
qed

lemma reachable_funded: "reachable funded"
  unfolding funded_def by (rule reachable_run [OF reachable.init])

lemma reachable_paidOut: "reachable paidOut"
  unfolding paidOut_def by (rule reachable_step [OF reachable_funded])

lemma frozen_preserved:
  "frozen g s \<longrightarrow> (\<forall>s'. exec now s c = Inr s' \<longrightarrow> frozen g s')"
  "frozen g s \<longrightarrow> frozen g (run now s cs)"
proof -
  have create: "frozen g s'"
    if "frozen g s" "createGoal s sender now ttl descr target dl = Inr (g', s')"
    for s sender now ttl descr target dl g' s'
  proof -
    from that(2) have "nextGoalId s \<noteq> - 1" by (simp add: createGoal_Inr)
    then have "unat (nextGoalId s) + 1 < 2 ^ 256" using succ_fits_iff by blast
    from less_succ_iff [OF this] that show ?thesis
      by (auto simp: frozen_def goalExists_def createGoal_Inr)
  qed
  have dep: "frozen g s'" if "frozen g s" "deposit s sender val g' = Inr s'"
    for s sender val g' s'
    using that by (auto simp: frozen_def goalExists_def deposit_Inr)
  have fin: "frozen g (s\<lparr>goals := (goals s)(g' := (goals s g')\<lparr>isWithdrawn := True, balance := 0\<rparr>)\<rparr>)"
    if "frozen g s" for s g'
    using that by (auto simp: frozen_def goalExists_def)
  have pay: "frozen g (s\<lparr>held := n\<rparr>)" if "frozen g s" for s n
    using that by (simp add: frozen_def goalExists_def)
  have emit: "frozen g (s\<lparr>emitted := es\<rparr>)" if "frozen g s" for s es
    using that by (simp add: frozen_def goalExists_def)
  show "frozen g s \<longrightarrow> (\<forall>s'. exec now s c = Inr s' \<longrightarrow> frozen g s')"
    by (rule exec_run_preserve(1) [where P = "frozen g"]) (blast intro: create dep fin pay emit)+
  show "frozen g s \<longrightarrow> frozen g (run now s cs)"
    by (rule exec_run_preserve(2) [where P = "frozen g"]) (blast intro: create dep fin pay emit)+
qed

lemma frozen_step: "frozen g s \<Longrightarrow> frozen g (step now s c)"
  using frozen_preserved(1) [of g s now c] by (auto simp: step_def split: sum.splits)

subsection \<open>The contract holds what it owes\<close>

lemma owed_update:
  "owed (s\<lparr>goals := (goals s)(g := G)\<rparr>) + unat (balance (goals s g)) = owed s + unat (balance G)"
proof -
  have "owed (s\<lparr>goals := (goals s)(g := G)\<rparr>) =
      unat (balance G) + (\<Sum>x \<in> UNIV - {g}. unat (balance (((goals s)(g := G)) x)))"
    unfolding owed_def by (subst sum.remove [of UNIV g]) simp_all
  also have "(\<Sum>x \<in> UNIV - {g}. unat (balance (((goals s)(g := G)) x))) =
      (\<Sum>x \<in> UNIV - {g}. unat (balance (goals s x)))"
    by (rule sum.cong) simp_all
  finally have 1: "owed (s\<lparr>goals := (goals s)(g := G)\<rparr>) =
      unat (balance G) + (\<Sum>x \<in> UNIV - {g}. unat (balance (goals s x)))" .
  have 2: "owed s = unat (balance (goals s g)) + (\<Sum>x \<in> UNIV - {g}. unat (balance (goals s x)))"
    unfolding owed_def by (subst sum.remove [of UNIV g]) simp_all
  from 1 2 show ?thesis by simp
qed

lemma owed_other [simp]:
  "owed (s\<lparr>held := k\<rparr>) = owed s" "owed (s\<lparr>emitted := es\<rparr>) = owed s"
  "owed (s\<lparr>nextGoalId := n\<rparr>) = owed s" "owed (s\<lparr>ownerGoals := og\<rparr>) = owed s"
  by (simp_all add: owed_def)

lemma balance_le_owed: "unat (balance (goals s g)) \<le> owed s"
  unfolding owed_def by (rule member_le_sum) simp_all

lemma solvent_preserved:
  "solvent s \<longrightarrow> (\<forall>s'. exec now s c = Inr s' \<longrightarrow> solvent s')"
  "solvent s \<longrightarrow> solvent (run now s cs)"
proof (induction now s c and now s cs rule: exec_run.induct)
  case (1 now s sender ttl descr target dl)
  show ?case
  proof (intro impI allI)
    fix s' assume p: "solvent s"
      and e: "exec now s (CreateGoal sender ttl descr target dl) = Inr s'"
    let ?G = "\<lparr>owner = sender, title = ttl, description = descr, targetAmount = target,
               deadline = dl, balance = 0, isWithdrawn = False\<rparr>"
    from e have "owed s' = owed (s\<lparr>goals := (goals s)(nextGoalId s := ?G)\<rparr>)" "held s' = held s"
      by (auto simp: createGoal_Inr owed_def split: sum.splits)
    with owed_update [of s "nextGoalId s" ?G] p show "solvent s'"
      by (simp add: solvent_def)
  qed
next
  case (2 now s sender val goalId)
  show ?case
  proof (intro impI allI)
    fix s' assume p: "solvent s" and e: "exec now s (Deposit sender val goalId) = Inr s'"
    let ?G = "(goals s goalId)\<lparr>balance := balance (goals s goalId) + val\<rparr>"
    from e have fits: "unat (balance (goals s goalId)) + unat val < 2 ^ 256"
      and "owed s' = owed (s\<lparr>goals := (goals s)(goalId := ?G)\<rparr>)" "held s' = held s + unat val"
      by (auto simp: deposit_Inr owed_def)
    with owed_update [of s goalId ?G] unat_checked [OF fits] p show "solvent s'"
      by (simp add: solvent_def)
  qed
next
  case (3 now s sender goalId cs ok)
  show ?case
  proof (intro impI allI)
    fix s' assume p: "solvent s" and e: "exec now s (Withdraw sender goalId cs ok) = Inr s'"
    let ?a = "balance (goals s goalId)"
    let ?G = "(goals s goalId)\<lparr>isWithdrawn := True, balance := 0\<rparr>"
    let ?s1 = "s\<lparr>goals := (goals s)(goalId := ?G), held := held s - unat ?a\<rparr>"
    from e have ok: "\<not> (held s < unat ?a \<or> \<not> ok)"
      and s': "s' = (run now ?s1 cs)\<lparr>emitted := emitted (run now ?s1 cs) @ [Withdrawn goalId sender ?a]\<rparr>"
      unfolding exec_Withdraw_Inr by auto
    from owed_update [of s goalId ?G] p ok have "solvent ?s1"
      by (simp add: solvent_def)
    moreover have "solvent ?s1 \<longrightarrow> solvent (run now ?s1 cs)"
      using 3 [of "s\<lparr>goals := (goals s)(goalId := ?G)\<rparr>" "?a"] ok by simp
    ultimately have "solvent (run now ?s1 cs)" by blast
    then show "solvent s'" unfolding s' by (simp add: solvent_def)
  qed
next
  case (4 now s)
  show ?case by simp
next
  case (5 now s c cs)
  then show ?case by (auto split: sum.splits)
qed

lemma reachable_solvent: "reachable s \<Longrightarrow> solvent s"
proof (induction rule: reachable.induct)
  case init
  show ?case by (simp add: solvent_def owed_def deployed_def zeroGoal_def)
next
  case (step s now c s')
  with solvent_preserved(1) [of s now c] show ?case by blast
qed

lemma reachable_covers: "reachable s \<Longrightarrow> unat (balance (goals s g)) \<le> held s"
  using reachable_solvent [of s] balance_le_owed [of s g] by (simp add: solvent_def)

text \<open>
  So the checked addition of \<^verbatim>\<open>deposit\<close> overflows only with an amount that, added to
  the ether the contract holds, does not fit in a \<^verbatim>\<open>uint256\<close> either.
\<close>

lemma deposit_backed:
  assumes "reachable s" and "held s + unat val < 2 ^ 256"
  shows "unat (balance (goals s g)) + unat val < 2 ^ 256"
  using reachable_covers [OF assms(1), of g] assms(2) by simp

section \<open>createGoal\<close>




section \<open>deposit\<close>











section \<open>withdraw\<close>

subsection \<open>The order of the checks\<close>

text \<open>
  Claim C2. \<^verbatim>\<open>withdraw\<close> checks, in this order and each with a message of its own: that
  the goal exists, that the caller is its owner, that it has not been withdrawn, that the
  deadline has passed or the target is reached, and that the balance is positive. Each
  line below is the failure of one check when all the checks before it pass; the last but
  one says that a call that passes the five checks can only fail in the transfer. In
  particular (fifth line) a goal with balance 0 is rejected also after its deadline.
\<close>

theorem withdraw_check_order:
  "(\<not> goalExists s g \<longrightarrow>
      withdraw xfer s sender now g = Inl (Revert ''Goal does not exist'')) \<and>
   (goalExists s g \<and> sender \<noteq> owner (goals s g) \<longrightarrow>
      withdraw xfer s sender now g = Inl (Revert ''Only goal owner can withdraw'')) \<and>
   (goalExists s g \<and> sender = owner (goals s g) \<and> isWithdrawn (goals s g) \<longrightarrow>
      withdraw xfer s sender now g = Inl (Revert ''Goal has already been withdrawn'')) \<and>
   (goalExists s g \<and> sender = owner (goals s g) \<and> \<not> isWithdrawn (goals s g) \<and>
    \<not> (deadline (goals s g) \<le> now \<or> targetAmount (goals s g) \<le> balance (goals s g)) \<longrightarrow>
      withdraw xfer s sender now g =
        Inl (Revert ''Cannot withdraw: deadline not passed and target not reached'')) \<and>
   (goalExists s g \<and> sender = owner (goals s g) \<and> \<not> isWithdrawn (goals s g) \<and>
    (deadline (goals s g) \<le> now \<or> targetAmount (goals s g) \<le> balance (goals s g)) \<and>
    balance (goals s g) = 0 \<longrightarrow>
      withdraw xfer s sender now g = Inl (Revert ''No balance to withdraw'')) \<and>
   (goalExists s g \<and> sender = owner (goals s g) \<and> \<not> isWithdrawn (goals s g) \<and>
    (deadline (goals s g) \<le> now \<or> targetAmount (goals s g) \<le> balance (goals s g)) \<and>
    0 < balance (goals s g) \<longrightarrow>
      withdraw xfer s sender now g = Inl (Revert ''Transfer failed'') \<or>
      (\<exists>s'. withdraw xfer s sender now g = Inr s')) \<and>
   distinct [''Goal does not exist'', ''Only goal owner can withdraw'',
     ''Goal has already been withdrawn'',
     ''Cannot withdraw: deadline not passed and target not reached'',
     ''No balance to withdraw'', ''Transfer failed'']"
  by (auto simp: withdraw_def Let_def word_gt_0 split: prod.splits)

theorem withdraw_check_order_witness:
  "(\<not> goalExists funded 7 \<and>
      withdraw accept funded 1 10 7 = Inl (Revert ''Goal does not exist'')) \<and>
   (goalExists funded 0 \<and> 2 \<noteq> owner (goals funded 0) \<and>
      withdraw accept funded 2 10 0 = Inl (Revert ''Only goal owner can withdraw'')) \<and>
   (goalExists paidOut 0 \<and> 1 = owner (goals paidOut 0) \<and> isWithdrawn (goals paidOut 0) \<and>
      withdraw accept paidOut 1 10 0 = Inl (Revert ''Goal has already been withdrawn'')) \<and>
   (goalExists funded 2 \<and> 1 = owner (goals funded 2) \<and> \<not> isWithdrawn (goals funded 2) \<and>
    \<not> (deadline (goals funded 2) \<le> 10 \<or> targetAmount (goals funded 2) \<le> balance (goals funded 2)) \<and>
      withdraw accept funded 1 10 2 =
        Inl (Revert ''Cannot withdraw: deadline not passed and target not reached'')) \<and>
   (goalExists funded 1 \<and> 2 = owner (goals funded 1) \<and> \<not> isWithdrawn (goals funded 1) \<and>
    deadline (goals funded 1) \<le> 200 \<and> balance (goals funded 1) = 0 \<and>
      withdraw accept funded 2 200 1 = Inl (Revert ''No balance to withdraw'')) \<and>
   (goalExists funded 0 \<and> 1 = owner (goals funded 0) \<and> \<not> isWithdrawn (goals funded 0) \<and>
    targetAmount (goals funded 0) \<le> balance (goals funded 0) \<and> 0 < balance (goals funded 0) \<and>
      (\<exists>s'. withdraw accept funded 1 10 0 = Inr s'))"
  using withdraw_check_order [where s = funded and g = 7 and xfer = accept and sender = 1 and now = 10]
    withdraw_check_order [where s = funded and g = 0 and xfer = accept and sender = 2 and now = 10]
    withdraw_check_order [where s = paidOut and g = 0 and xfer = accept and sender = 1 and now = 10]
    withdraw_check_order [where s = funded and g = 2 and xfer = accept and sender = 1 and now = 10]
    withdraw_check_order [where s = funded and g = 1 and xfer = accept and sender = 2 and now = 200]
    withdraw_check_order [where s = funded and g = 0 and xfer = accept and sender = 1 and now = 10]
  by (simp add: funded_goals paidOut_goals goalExists_def accept_def withdraw_def Let_def
      word_le_nat_alt word_less_nat_alt)

subsection \<open>A transfer that fails\<close>

text \<open>
  Claim C5. When the transfer made by \<^verbatim>\<open>withdraw\<close> fails, the call reverts with
  \<^verbatim>\<open>Transfer failed\<close> (first line), and the contract is as it was before the call: the
  flag and the balance of the goal, and the events, are unchanged, and the next call runs
  on the unchanged contract (third and fourth lines, for a recipient that reverts and for
  a contract that holds too little; in a reachable state the contract holds the balance of
  every goal, last line, so that only the recipient can make the transfer fail). The event
  \<^verbatim>\<open>Withdrawn\<close> is emitted only when the transfer has returned with success, after what
  the recipient did (second line).
\<close>

theorem withdraw_transfer_failure_reverts:
  "(goalExists s g \<and> sender = owner (goals s g) \<and> \<not> isWithdrawn (goals s g) \<and>
    (deadline (goals s g) \<le> now \<or> targetAmount (goals s g) \<le> balance (goals s g)) \<and>
    0 < balance (goals s g) \<and>
    \<not> fst (xfer (s\<lparr>goals := (goals s)(g := (goals s g)\<lparr>isWithdrawn := True, balance := 0\<rparr>)\<rparr>)
             sender (balance (goals s g))) \<longrightarrow>
      withdraw xfer s sender now g = Inl (Revert ''Transfer failed'')) \<and>
   (withdraw xfer s sender now g = Inr s' \<longrightarrow>
      (\<exists>s2. xfer (s\<lparr>goals := (goals s)(g := (goals s g)\<lparr>isWithdrawn := True, balance := 0\<rparr>)\<rparr>)
              sender (balance (goals s g)) = (True, s2) \<and>
            emitted s' = emitted s2 @ [Withdrawn g sender (balance (goals s g))])) \<and>
   (\<not> ok \<or> held s < unat (balance (goals s g)) \<longrightarrow>
      (\<forall>t. exec now s (Withdraw sender g cs ok) \<noteq> Inr t) \<and>
      step now s (Withdraw sender g cs ok) = s \<and>
      run now s (Withdraw sender g cs ok # rest) = run now s rest) \<and>
   (exec now s (Withdraw sender g cs ok) = Inl (Revert ''Transfer failed'') \<longrightarrow>
      (\<not> ok \<or> held s < unat (balance (goals s g))) \<and>
      step now s (Withdraw sender g cs ok) = s) \<and>
   (reachable s \<longrightarrow> unat (balance (goals s g)) \<le> held s)"
proof (intro conjI impI)
  assume "goalExists s g \<and> sender = owner (goals s g) \<and> \<not> isWithdrawn (goals s g) \<and>
    (deadline (goals s g) \<le> now \<or> targetAmount (goals s g) \<le> balance (goals s g)) \<and>
    0 < balance (goals s g) \<and>
    \<not> fst (xfer (s\<lparr>goals := (goals s)(g := (goals s g)\<lparr>isWithdrawn := True, balance := 0\<rparr>)\<rparr>)
             sender (balance (goals s g)))"
  then show "withdraw xfer s sender now g = Inl (Revert ''Transfer failed'')"
    by (auto simp: withdraw_def Let_def split: prod.splits)
next
  assume "withdraw xfer s sender now g = Inr s'"
  then show "\<exists>s2. xfer (s\<lparr>goals := (goals s)(g := (goals s g)\<lparr>isWithdrawn := True, balance := 0\<rparr>)\<rparr>)
              sender (balance (goals s g)) = (True, s2) \<and>
            emitted s' = emitted s2 @ [Withdrawn g sender (balance (goals s g))]"
    by (auto simp: withdraw_Inr)
next
  assume f: "\<not> ok \<or> held s < unat (balance (goals s g))"
  then show no: "\<forall>t. exec now s (Withdraw sender g cs ok) \<noteq> Inr t"
    unfolding exec_Withdraw_Inr by auto
  then show st: "step now s (Withdraw sender g cs ok) = s"
    by (auto simp: step_def split: sum.splits)
  show "run now s (Withdraw sender g cs ok # rest) = run now s rest"
    unfolding run_Cons_step st ..
next
  assume e: "exec now s (Withdraw sender g cs ok) = Inl (Revert ''Transfer failed'')"
  then show "\<not> ok \<or> held s < unat (balance (goals s g))"
    by (auto simp: withdraw_def Let_def split: if_splits)
  from e show "step now s (Withdraw sender g cs ok) = s"
    by (simp add: step_def)
next
  assume "reachable s"
  then show "unat (balance (goals s g)) \<le> held s" by (rule reachable_covers)
qed

theorem withdraw_transfer_failure_reverts_witness:
  "(goalExists funded 0 \<and> 1 = owner (goals funded 0) \<and> \<not> isWithdrawn (goals funded 0) \<and>
    targetAmount (goals funded 0) \<le> balance (goals funded 0) \<and> 0 < balance (goals funded 0) \<and>
    \<not> fst (refuse (funded\<lparr>goals := (goals funded)(0 := (goals funded 0)\<lparr>isWithdrawn := True, balance := 0\<rparr>)\<rparr>)
             1 (balance (goals funded 0))) \<and>
      withdraw refuse funded 1 10 0 = Inl (Revert ''Transfer failed'')) \<and>
   (withdraw accept funded 1 10 0 =
      Inr (funded\<lparr>goals := (goals funded)(0 := (goals funded 0)\<lparr>isWithdrawn := True, balance := 0\<rparr>),
                  emitted := emitted funded @ [Withdrawn 0 1 7]\<rparr>) \<and>
      (\<exists>s2. accept (funded\<lparr>goals := (goals funded)(0 := (goals funded 0)\<lparr>isWithdrawn := True, balance := 0\<rparr>)\<rparr>)
              1 (balance (goals funded 0)) = (True, s2))) \<and>
   (exec 10 funded (Withdraw 1 0 [Deposit 2 5 1] False) = Inl (Revert ''Transfer failed'') \<and>
      step 10 funded (Withdraw 1 0 [Deposit 2 5 1] False) = funded \<and>
      run 10 funded [Withdraw 1 0 [Deposit 2 5 1] False] = funded) \<and>
   (reachable funded \<and> unat (balance (goals funded 0)) \<le> held funded)"
  using withdraw_transfer_failure_reverts [where s = funded and g = 0 and sender = 1 and now = 10
      and xfer = refuse]
    withdraw_transfer_failure_reverts [where s = funded and g = 0 and sender = 1 and now = 10
      and xfer = accept and s' = "funded\<lparr>goals := (goals funded)(0 := (goals funded 0)\<lparr>isWithdrawn := True, balance := 0\<rparr>),
                  emitted := emitted funded @ [Withdrawn 0 1 7]\<rparr>"]
    withdraw_transfer_failure_reverts [where s = funded and g = 0 and sender = 1 and now = 10
      and ok = False and cs = "[Deposit 2 5 1]" and rest = "[]"]
    reachable_funded
  by (simp add: funded_goals goalExists_def accept_def refuse_def withdraw_def Let_def
      word_le_nat_alt word_less_nat_alt)

subsection \<open>The effects come before the transfer\<close>

lemma withdrawals_append [simp]:
  "withdrawals g (es @ fs) = withdrawals g es + withdrawals g fs"
  by (simp add: withdrawals_def)

lemma withdrawals_single [simp]:
  "withdrawals g [Withdrawn g' to amount] = (if g' = g then 1 else 0)"
  "withdrawals g [Deposited g' who amount b] = 0"
  "withdrawals g [GoalCreated g' who target dl] = 0"
  "withdrawals g [] = 0"
  by (simp_all add: withdrawals_def)

lemma paidTimes_preserved:
  "paidTimes g n s \<longrightarrow> (\<forall>s'. exec now s c = Inr s' \<longrightarrow> paidTimes g n s')"
  "paidTimes g n s \<longrightarrow> paidTimes g n (run now s cs)"
proof -
  have create: "paidTimes g n s'"
    if "paidTimes g n s" "createGoal s sender now ttl descr target dl = Inr (g', s')"
    for s sender now ttl descr target dl g' s'
  proof -
    from that have "frozen g s'"
      using frozen_preserved(1) [of g s now "CreateGoal sender ttl descr target dl"]
      by (simp add: paidTimes_def)
    with that show ?thesis by (auto simp: paidTimes_def createGoal_Inr)
  qed
  have dep: "paidTimes g n s'" if "paidTimes g n s" "deposit s sender val g' = Inr s'"
    for s sender val g' s'
  proof -
    from that have "frozen g s'"
      using frozen_preserved(1) [of g s 0 "Deposit sender val g'"]
      by (simp add: paidTimes_def)
    with that show ?thesis by (auto simp: paidTimes_def deposit_Inr)
  qed
  have fin: "paidTimes g n (s\<lparr>goals := (goals s)(g' := (goals s g')\<lparr>isWithdrawn := True, balance := 0\<rparr>)\<rparr>)"
    if "paidTimes g n s" for s g'
    using that by (auto simp: paidTimes_def frozen_def goalExists_def)
  have pay: "paidTimes g n (s\<lparr>held := k\<rparr>)" if "paidTimes g n s" for s k
    using that by (simp add: paidTimes_def frozen_def goalExists_def)
  have emit: "paidTimes g n (s\<lparr>emitted := emitted s @ [Withdrawn g' sender amount]\<rparr>)"
    if "paidTimes g n s0" "\<not> isWithdrawn (goals s0 g')" "paidTimes g n s"
    for s0 s g' sender amount
  proof -
    from that(1,2) have "g' \<noteq> g" by (auto simp: paidTimes_def frozen_def)
    with that(3) show ?thesis by (simp add: paidTimes_def frozen_def goalExists_def)
  qed
  show "paidTimes g n s \<longrightarrow> (\<forall>s'. exec now s c = Inr s' \<longrightarrow> paidTimes g n s')"
    by (rule exec_run_preserve(1) [where P = "paidTimes g n"];
        (erule (1) create | erule (1) dep | erule fin | erule pay | (rule emit; assumption)))
  show "paidTimes g n s \<longrightarrow> paidTimes g n (run now s cs)"
    by (rule exec_run_preserve(2) [where P = "paidTimes g n"];
        (erule (1) create | erule (1) dep | erule fin | erule pay | (rule emit; assumption)))
qed

lemma paidOnce_preserved:
  "paidOnce g s \<longrightarrow> (\<forall>s'. exec now s c = Inr s' \<longrightarrow> paidOnce g s')"
  "paidOnce g s \<longrightarrow> paidOnce g (run now s cs)"
proof (induction now s c and now s cs rule: exec_run.induct)
  case (1 now s sender ttl descr target dl)
  show ?case
  proof (intro impI allI)
    fix s' assume p: "paidOnce g s"
      and e: "exec now s (CreateGoal sender ttl descr target dl) = Inr s'"
    from e obtain g' where c: "createGoal s sender now ttl descr target dl = Inr (g', s')"
      by (auto split: sum.splits)
    show "paidOnce g s'"
    proof (cases "isWithdrawn (goals s g)")
      case True
      with p have "paidTimes g 1 s" by (simp add: paidOnce_def paidTimes_def)
      with paidTimes_preserved(1) [of g 1 s now "CreateGoal sender ttl descr target dl"] e
      have "paidTimes g 1 s'" by blast
      then show ?thesis by (simp add: paidOnce_def paidTimes_def frozen_def)
    next
      case False
      with p c show ?thesis by (auto simp: paidOnce_def createGoal_Inr)
    qed
  qed
next
  case (2 now s sender val goalId)
  show ?case
  proof (intro impI allI)
    fix s' assume p: "paidOnce g s" and e: "exec now s (Deposit sender val goalId) = Inr s'"
    show "paidOnce g s'"
    proof (cases "isWithdrawn (goals s g)")
      case True
      with p have "paidTimes g 1 s" by (simp add: paidOnce_def paidTimes_def)
      with paidTimes_preserved(1) [of g 1 s now "Deposit sender val goalId"] e
      have "paidTimes g 1 s'" by blast
      then show ?thesis by (simp add: paidOnce_def paidTimes_def frozen_def)
    next
      case False
      with p e show ?thesis by (auto simp: paidOnce_def deposit_Inr)
    qed
  qed
next
  case (3 now s sender goalId cs ok)
  show ?case
  proof (intro impI allI)
    fix s' assume p: "paidOnce g s" and e: "exec now s (Withdraw sender goalId cs ok) = Inr s'"
    let ?a = "balance (goals s goalId)"
    let ?s1 = "s\<lparr>goals := (goals s)(goalId := (goals s goalId)\<lparr>isWithdrawn := True, balance := 0\<rparr>),
                 held := held s - unat ?a\<rparr>"
    from e have pre: "goalExists s goalId" "\<not> isWithdrawn (goals s goalId)"
      and ok: "\<not> (held s < unat ?a \<or> \<not> ok)"
      and s': "s' = (run now ?s1 cs)\<lparr>emitted := emitted (run now ?s1 cs) @ [Withdrawn goalId sender ?a]\<rparr>"
      unfolding exec_Withdraw_Inr by auto
    show "paidOnce g s'"
    proof (cases "goalId = g")
      case True
      with p pre have "paidTimes g 0 ?s1"
        by (simp add: paidOnce_def paidTimes_def frozen_def goalExists_def)
      with paidTimes_preserved(2) [of g 0 ?s1 now cs]
      have "paidTimes g 0 (run now ?s1 cs)" by blast
      with True show ?thesis unfolding s'
        by (simp add: paidOnce_def paidTimes_def frozen_def goalExists_def)
    next
      case False
      with p have "paidOnce g ?s1" by (simp add: paidOnce_def frozen_def goalExists_def)
      moreover have "paidOnce g ?s1 \<longrightarrow> paidOnce g (run now ?s1 cs)"
        using 3 [of "s\<lparr>goals := (goals s)(goalId := (goals s goalId)\<lparr>isWithdrawn := True, balance := 0\<rparr>)\<rparr>" "?a"]
          ok by simp
      ultimately have "paidOnce g (run now ?s1 cs)" by blast
      with False show ?thesis unfolding s' by (simp add: paidOnce_def frozen_def goalExists_def)
    qed
  qed
next
  case (4 now s)
  show ?case by simp
next
  case (5 now s c cs)
  then show ?case by (auto split: sum.splits)
qed

lemma reachable_paidOnce: "reachable s \<Longrightarrow> paidOnce g s"
proof (induction rule: reachable.induct)
  case init
  show ?case by (simp add: paidOnce_def deployed_def zeroGoal_def)
next
  case (step s now c s')
  with paidOnce_preserved(1) [of g s now c] show ?case by blast
qed


lemma exec_reentered:
  "exec 10 funded (Withdraw 1 0 ([Withdraw 1 0 [] True, Deposit 1 5 0] @
      [Withdraw 1 2 [] True, Deposit 2 1 1]) True) = Inr reentered"
  by (simp add: reentered_def step_def funded_goals withdraw_def deposit_def goalExists_def
      checkedAdd_def Let_def word_le_nat_alt word_less_nat_alt)

text \<open>
  Claim C1. When \<^verbatim>\<open>withdraw\<close> succeeds, the transfer was called on the contract in which
  the goal is already marked withdrawn with balance 0, with the balance the goal had before
  as the amount (first part, for any recipient). While the recipient runs (second part),
  after any number \<open>pre\<close> of the calls it makes, the goal is still marked withdrawn with
  balance 0, every call of \<^verbatim>\<open>withdraw\<close> on it reverts on the owner check or on the
  withdrawn flag, before the transfer, and every \<^verbatim>\<open>deposit\<close> into it reverts; over the
  whole call, whatever the recipient and the recipients of nested withdrawals do, the log
  gains exactly one event \<^verbatim>\<open>Withdrawn\<close> of this goal. In every reachable state (third
  part) a goal has been paid out once if it is marked withdrawn and never otherwise.
\<close>

theorem withdraw_finalizes_before_transfer:
  "(withdraw xfer s sender now g = Inr s' \<longrightarrow>
      (let s1 = s\<lparr>goals := (goals s)(g := (goals s g)\<lparr>isWithdrawn := True, balance := 0\<rparr>)\<rparr>
       in isWithdrawn (goals s1 g) \<and> balance (goals s1 g) = 0 \<and>
          (\<exists>s2. xfer s1 sender (balance (goals s g)) = (True, s2) \<and>
             s' = s2\<lparr>emitted := emitted s2 @ [Withdrawn g sender (balance (goals s g))]\<rparr>))) \<and>
   (exec now s (Withdraw sender g (pre @ post) ok) = Inr s' \<longrightarrow>
      (let s1 = s\<lparr>goals := (goals s)(g := (goals s g)\<lparr>isWithdrawn := True, balance := 0\<rparr>),
                  held := held s - unat (balance (goals s g))\<rparr>;
           t = run now s1 pre
       in isWithdrawn (goals t g) \<and> balance (goals t g) = 0 \<and>
          (\<forall>sender' cs' ok'.
             exec now t (Withdraw sender' g cs' ok') = Inl (Revert ''Only goal owner can withdraw'') \<or>
             exec now t (Withdraw sender' g cs' ok') = Inl (Revert ''Goal has already been withdrawn'')) \<and>
          (\<forall>sender' val.
             exec now t (Deposit sender' val g) = Inl (Revert ''Deposit amount must be greater than 0'') \<or>
             exec now t (Deposit sender' val g) = Inl (Revert ''Goal has already been withdrawn'')) \<and>
          withdrawals g (emitted s') = withdrawals g (emitted s) + 1)) \<and>
   (reachable s \<longrightarrow>
      withdrawals g (emitted s) = (if isWithdrawn (goals s g) then 1 else 0))"
proof (intro conjI impI)
  assume "withdraw xfer s sender now g = Inr s'"
  then show "let s1 = s\<lparr>goals := (goals s)(g := (goals s g)\<lparr>isWithdrawn := True, balance := 0\<rparr>)\<rparr>
       in isWithdrawn (goals s1 g) \<and> balance (goals s1 g) = 0 \<and>
          (\<exists>s2. xfer s1 sender (balance (goals s g)) = (True, s2) \<and>
             s' = s2\<lparr>emitted := emitted s2 @ [Withdrawn g sender (balance (goals s g))]\<rparr>)"
    by (auto simp: withdraw_Inr)
next
  assume e: "exec now s (Withdraw sender g (pre @ post) ok) = Inr s'"
  define s1 where "s1 = s\<lparr>goals := (goals s)(g := (goals s g)\<lparr>isWithdrawn := True, balance := 0\<rparr>),
                  held := held s - unat (balance (goals s g))\<rparr>"
  define t where "t = run now s1 pre"
  from e have pre: "goalExists s g" "\<not> isWithdrawn (goals s g)"
    and s': "s' = (run now s1 (pre @ post))\<lparr>emitted := emitted (run now s1 (pre @ post)) @
                [Withdrawn g sender (balance (goals s g))]\<rparr>"
    unfolding exec_Withdraw_Inr s1_def by auto
  from pre have "paidTimes g (withdrawals g (emitted s)) s1"
    by (simp add: paidTimes_def frozen_def goalExists_def s1_def)
  then have all: "paidTimes g (withdrawals g (emitted s)) (run now s1 cs)" for cs
    using paidTimes_preserved(2) by blast
  from all [of pre] have ft: "frozen g t" by (simp add: paidTimes_def t_def)
  then have 1: "isWithdrawn (goals t g) \<and> balance (goals t g) = 0" by (simp add: frozen_def)
  from ft have 2: "exec now t (Withdraw sender' g cs' ok') = Inl (Revert ''Only goal owner can withdraw'') \<or>
             exec now t (Withdraw sender' g cs' ok') = Inl (Revert ''Goal has already been withdrawn'')"
    for sender' cs' ok'
    by (simp add: frozen_def withdraw_def)
  from ft have 3: "exec now t (Deposit sender' val g) = Inl (Revert ''Deposit amount must be greater than 0'') \<or>
             exec now t (Deposit sender' val g) = Inl (Revert ''Goal has already been withdrawn'')"
    for sender' val
    by (simp add: frozen_def deposit_def)
  from all [of "pre @ post"] have 4: "withdrawals g (emitted s') = withdrawals g (emitted s) + 1"
    unfolding s' by (simp add: paidTimes_def)
  from 1 2 3 4 show "let s1 = s\<lparr>goals := (goals s)(g := (goals s g)\<lparr>isWithdrawn := True, balance := 0\<rparr>),
                  held := held s - unat (balance (goals s g))\<rparr>;
           t = run now s1 pre
       in isWithdrawn (goals t g) \<and> balance (goals t g) = 0 \<and>
          (\<forall>sender' cs' ok'.
             exec now t (Withdraw sender' g cs' ok') = Inl (Revert ''Only goal owner can withdraw'') \<or>
             exec now t (Withdraw sender' g cs' ok') = Inl (Revert ''Goal has already been withdrawn'')) \<and>
          (\<forall>sender' val.
             exec now t (Deposit sender' val g) = Inl (Revert ''Deposit amount must be greater than 0'') \<or>
             exec now t (Deposit sender' val g) = Inl (Revert ''Goal has already been withdrawn'')) \<and>
          withdrawals g (emitted s') = withdrawals g (emitted s) + 1"
    unfolding Let_def s1_def [symmetric] t_def [symmetric] by blast
next
  assume "reachable s"
  then have "paidOnce g s" by (rule reachable_paidOnce)
  then show "withdrawals g (emitted s) = (if isWithdrawn (goals s g) then 1 else 0)"
    by (simp add: paidOnce_def)
qed


theorem withdraw_finalizes_before_transfer_witness:
  "withdraw accept funded 1 10 0 =
     Inr (funded\<lparr>goals := (goals funded)(0 := (goals funded 0)\<lparr>isWithdrawn := True, balance := 0\<rparr>),
                 emitted := emitted funded @ [Withdrawn 0 1 7]\<rparr>) \<and>
   accept (funded\<lparr>goals := (goals funded)(0 := (goals funded 0)\<lparr>isWithdrawn := True, balance := 0\<rparr>)\<rparr>) 1 7 =
     (True, funded\<lparr>goals := (goals funded)(0 := (goals funded 0)\<lparr>isWithdrawn := True, balance := 0\<rparr>)\<rparr>) \<and>
   exec 10 funded (Withdraw 1 0 ([Withdraw 1 0 [] True, Deposit 1 5 0] @
      [Withdraw 1 2 [] True, Deposit 2 1 1]) True) = Inr reentered \<and>
   isWithdrawn (goals (run 10 midTransfer [Withdraw 1 0 [] True, Deposit 1 5 0]) 0) \<and>
   balance (goals (run 10 midTransfer [Withdraw 1 0 [] True, Deposit 1 5 0]) 0) = 0 \<and>
   exec 10 (run 10 midTransfer [Withdraw 1 0 [] True, Deposit 1 5 0]) (Withdraw 1 0 [] True) =
     Inl (Revert ''Goal has already been withdrawn'') \<and>
   exec 10 (run 10 midTransfer [Withdraw 1 0 [] True, Deposit 1 5 0]) (Withdraw 2 0 [] True) =
     Inl (Revert ''Only goal owner can withdraw'') \<and>
   exec 10 (run 10 midTransfer [Withdraw 1 0 [] True, Deposit 1 5 0]) (Deposit 1 5 0) =
     Inl (Revert ''Goal has already been withdrawn'') \<and>
   withdrawals 0 (emitted funded) = 0 \<and> withdrawals 0 (emitted reentered) = 1 \<and>
   reachable paidOut \<and> isWithdrawn (goals paidOut 0) \<and> withdrawals 0 (emitted paidOut) = 1"
proof -
  let ?pre = "[Withdraw 1 0 [] True, Deposit 1 5 0]"
  let ?t = "run 10 midTransfer ?pre"
  have h1: "withdraw accept funded 1 10 0 =
     Inr (funded\<lparr>goals := (goals funded)(0 := (goals funded 0)\<lparr>isWithdrawn := True, balance := 0\<rparr>),
                 emitted := emitted funded @ [Withdrawn 0 1 7]\<rparr>)"
    by (simp add: withdraw_def accept_def funded_goals goalExists_def Let_def)
  from withdraw_finalizes_before_transfer [where xfer = accept and s = funded and sender = 1
      and now = 10 and g = 0, THEN conjunct1, rule_format, OF h1]
  have c1: "accept (funded\<lparr>goals := (goals funded)(0 := (goals funded 0)\<lparr>isWithdrawn := True, balance := 0\<rparr>)\<rparr>) 1 7 =
     (True, funded\<lparr>goals := (goals funded)(0 := (goals funded 0)\<lparr>isWithdrawn := True, balance := 0\<rparr>)\<rparr>)"
    by (simp add: accept_def)
  from withdraw_finalizes_before_transfer [where s = funded and sender = 1 and now = 10
      and g = 0 and pre = ?pre, THEN conjunct2, THEN conjunct1, rule_format, OF exec_reentered]
  have c2: "isWithdrawn (goals ?t 0) \<and> balance (goals ?t 0) = 0 \<and>
      (exec 10 ?t (Withdraw 1 0 [] True) = Inl (Revert ''Only goal owner can withdraw'') \<or>
       exec 10 ?t (Withdraw 1 0 [] True) = Inl (Revert ''Goal has already been withdrawn'')) \<and>
      (exec 10 ?t (Withdraw 2 0 [] True) = Inl (Revert ''Only goal owner can withdraw'') \<or>
       exec 10 ?t (Withdraw 2 0 [] True) = Inl (Revert ''Goal has already been withdrawn'')) \<and>
      (exec 10 ?t (Deposit 1 5 0) = Inl (Revert ''Deposit amount must be greater than 0'') \<or>
       exec 10 ?t (Deposit 1 5 0) = Inl (Revert ''Goal has already been withdrawn'')) \<and>
      withdrawals 0 (emitted reentered) = withdrawals 0 (emitted funded) + 1"
    unfolding Let_def midTransfer_def [symmetric] by blast
  from withdraw_finalizes_before_transfer [where s = funded and g = 0,
      THEN conjunct2, THEN conjunct2, rule_format, OF reachable_funded]
  have c3: "withdrawals 0 (emitted funded) = 0" by (simp add: funded_goals)
  from withdraw_finalizes_before_transfer [where s = paidOut and g = 0,
      THEN conjunct2, THEN conjunct2, rule_format, OF reachable_paidOut]
  have c4: "withdrawals 0 (emitted paidOut) = 1" by (simp add: paidOut_goals)
  have ev: "goals ?t 0 = goals midTransfer 0" "nextGoalId ?t = 3"
    by (simp_all add: midTransfer_def funded_goals withdraw_def deposit_def goalExists_def Let_def)
  have e1: "exec 10 ?t (Withdraw 1 0 [] True) = Inl (Revert ''Goal has already been withdrawn'')"
    and e2: "exec 10 ?t (Withdraw 2 0 [] True) = Inl (Revert ''Only goal owner can withdraw'')"
    and e3: "exec 10 ?t (Deposit 1 5 0) = Inl (Revert ''Goal has already been withdrawn'')"
    by (simp_all add: ev midTransfer_def funded_goals withdraw_def deposit_def goalExists_def)
  from h1 c1 c2 c3 c4 e1 e2 e3 exec_reentered reachable_paidOut show ?thesis
    by (simp add: paidOut_goals)
qed

section \<open>canWithdraw\<close>

text \<open>
  Claim C3. \<^verbatim>\<open>canWithdraw\<close> is false when the goal is absent, withdrawn or empty, and
  otherwise true exactly when the deadline has passed or the target is reached. It is the
  conjunction of the checks of \<^verbatim>\<open>withdraw\<close> other than the one on the caller: when the
  transfer succeeds, \<^verbatim>\<open>withdraw\<close> called by the owner succeeds exactly when
  \<^verbatim>\<open>canWithdraw\<close> is true; in a reachable state this is so for every recipient that
  accepts the ether, whatever calls it makes, because the contract holds the balance of
  every goal. The function is a \<^verbatim>\<open>view\<close> without \<^verbatim>\<open>require\<close> and without arithmetic: it
  is a total function to \<open>bool\<close> that returns no state.
\<close>

theorem canWithdraw_mirrors_withdraw:
  "(\<not> goalExists s g \<or> isWithdrawn (goals s g) \<or> balance (goals s g) = 0 \<longrightarrow>
      canWithdraw s now g = False) \<and>
   (goalExists s g \<and> \<not> isWithdrawn (goals s g) \<and> balance (goals s g) \<noteq> 0 \<longrightarrow>
      canWithdraw s now g =
        (deadline (goals s g) \<le> now \<or> targetAmount (goals s g) \<le> balance (goals s g))) \<and>
   canWithdraw s now g =
     (goalExists s g \<and> \<not> isWithdrawn (goals s g) \<and>
      (deadline (goals s g) \<le> now \<or> targetAmount (goals s g) \<le> balance (goals s g)) \<and>
      0 < balance (goals s g)) \<and>
   ((\<forall>s1 to amount. fst (xfer s1 to amount)) \<longrightarrow>
      canWithdraw s now g = (\<exists>s'. withdraw xfer s (owner (goals s g)) now g = Inr s')) \<and>
   (reachable s \<longrightarrow>
      canWithdraw s now g = (\<exists>s'. exec now s (Withdraw (owner (goals s g)) g cs True) = Inr s'))"
proof -
  have eq: "canWithdraw s now g =
     (goalExists s g \<and> \<not> isWithdrawn (goals s g) \<and>
      (deadline (goals s g) \<le> now \<or> targetAmount (goals s g) \<le> balance (goals s g)) \<and>
      0 < balance (goals s g))"
    by (auto simp: canWithdraw_def Let_def word_gt_0)
  have "canWithdraw s now g = (\<exists>s'. withdraw xfer s (owner (goals s g)) now g = Inr s')"
    if "\<forall>s1 to amount. fst (xfer s1 to amount)"
  proof -
    have "\<exists>s2. xfer s1 to amount = (True, s2)" for s1 to amount
      using that [rule_format, of s1 to amount] by (cases "xfer s1 to amount") simp
    then show ?thesis unfolding eq withdraw_Inr by blast
  qed
  moreover
  have "canWithdraw s now g = (\<exists>s'. exec now s (Withdraw (owner (goals s g)) g cs True) = Inr s')"
    if "reachable s"
    unfolding eq exec_Withdraw_Inr using reachable_covers [OF that, of g] by simp
  ultimately show ?thesis using eq by (auto simp: word_gt_0)
qed

theorem canWithdraw_mirrors_withdraw_witness:
  "(\<not> goalExists funded 7 \<and> canWithdraw funded 200 7 = False) \<and>
   (isWithdrawn (goals paidOut 0) \<and> canWithdraw paidOut 200 0 = False) \<and>
   (balance (goals funded 1) = 0 \<and> canWithdraw funded 200 1 = False) \<and>
   (goalExists funded 2 \<and> \<not> isWithdrawn (goals funded 2) \<and> balance (goals funded 2) \<noteq> 0 \<and>
      canWithdraw funded 10 2 = False \<and> canWithdraw funded 100 2 = True) \<and>
   (goalExists funded 0 \<and> \<not> isWithdrawn (goals funded 0) \<and> balance (goals funded 0) \<noteq> 0 \<and>
      canWithdraw funded 10 0 = True) \<and>
   ((\<forall>s1 to amount. fst (accept s1 to amount)) \<and>
      (\<exists>s'. withdraw accept funded (owner (goals funded 0)) 10 0 = Inr s') \<and>
      \<not> (\<exists>s'. withdraw accept funded (owner (goals funded 2)) 10 2 = Inr s')) \<and>
   (reachable funded \<and>
      (\<exists>s'. exec 10 funded (Withdraw (owner (goals funded 0)) 0 [Deposit 2 1 1] True) = Inr s') \<and>
      \<not> (\<exists>s'. exec 10 funded (Withdraw (owner (goals funded 2)) 2 [Deposit 2 1 1] True) = Inr s'))"
  using canWithdraw_mirrors_withdraw [where s = funded and g = 7 and now = 200 and xfer = accept]
    canWithdraw_mirrors_withdraw [where s = paidOut and g = 0 and now = 200 and xfer = accept]
    canWithdraw_mirrors_withdraw [where s = funded and g = 1 and now = 200 and xfer = accept]
    canWithdraw_mirrors_withdraw [where s = funded and g = 2 and now = 10 and xfer = accept
      and cs = "[Deposit 2 1 1]"]
    canWithdraw_mirrors_withdraw [where s = funded and g = 2 and now = 100 and xfer = accept]
    canWithdraw_mirrors_withdraw [where s = funded and g = 0 and now = 10 and xfer = accept
      and cs = "[Deposit 2 1 1]"]
    reachable_funded
  by (simp add: funded_goals paidOut_goals goalExists_def accept_def
      word_le_nat_alt word_less_nat_alt del: exec.simps) blast

section \<open>Invariants of the reachable states\<close>

subsection \<open>A withdrawn goal stays withdrawn and empty\<close>

lemma settled_preserved:
  "settled s \<longrightarrow> (\<forall>s'. exec now s c = Inr s' \<longrightarrow> settled s')"
proof (rule exec_run_preserve(1) [where P = settled])
  fix s sender now ttl descr target dl g s'
  assume s: "settled s" and c: "createGoal s sender now ttl descr target dl = Inr (g, s')"
  from c have "nextGoalId s \<noteq> - 1" by (simp add: createGoal_Inr)
  then have "unat (nextGoalId s) + 1 < 2 ^ 256" using succ_fits_iff by blast
  from less_succ_iff [OF this] s c show "settled s'"
    by (auto simp: settled_def frozen_def goalExists_def createGoal_Inr)
next
  fix s sender val g s'
  assume "settled s" "deposit s sender val g = Inr s'"
  then show "settled s'"
    by (auto simp: settled_def frozen_def goalExists_def deposit_Inr)
next
  fix s g
  assume "settled s" "goalExists s g" "\<not> isWithdrawn (goals s g)"
  then show "settled (s\<lparr>goals := (goals s)(g := (goals s g)\<lparr>isWithdrawn := True, balance := 0\<rparr>)\<rparr>)"
    by (auto simp: settled_def frozen_def goalExists_def)
qed (auto simp: settled_def frozen_def goalExists_def)

lemma reachable_settled: "reachable s \<Longrightarrow> settled s"
proof (induction rule: reachable.induct)
  case init
  show ?case by (simp add: settled_def deployed_def zeroGoal_def)
next
  case (step s now c s')
  with settled_preserved [of s now c] show ?case by blast
qed

text \<open>
  Claim C4. In every state reachable from the deployed contract by calls of
  \<^verbatim>\<open>createGoal\<close>, \<^verbatim>\<open>deposit\<close> and \<^verbatim>\<open>withdraw\<close> (whatever the recipients of the transfers do),
  a goal marked withdrawn has balance 0; after any further call it is still marked
  withdrawn and its balance is still 0; and \<^verbatim>\<open>deposit\<close> on it reverts.
\<close>

theorem withdrawn_goal_stays_empty:
  assumes "reachable s"
  shows "(\<forall>g. isWithdrawn (goals s g) \<longrightarrow> balance (goals s g) = 0) \<and>
    (\<forall>now c g. isWithdrawn (goals s g) \<longrightarrow>
       isWithdrawn (goals (step now s c) g) \<and> balance (goals (step now s c) g) = 0) \<and>
    (\<forall>sender val g. isWithdrawn (goals s g) \<longrightarrow>
       (\<forall>s'. deposit s sender val g \<noteq> Inr s') \<and>
       (0 < val \<longrightarrow> deposit s sender val g = Inl (Revert ''Goal has already been withdrawn'')))"
proof -
  from assms have st: "settled s" by (rule reachable_settled)
  have 1: "\<forall>g. isWithdrawn (goals s g) \<longrightarrow> balance (goals s g) = 0"
    using st by (simp add: settled_def frozen_def)
  have 2: "isWithdrawn (goals (step now s c) g) \<and> balance (goals (step now s c) g) = 0"
    if "isWithdrawn (goals s g)" for now c g
  proof -
    from st that have "frozen g s" by (simp add: settled_def)
    then have "frozen g (step now s c)" by (rule frozen_step)
    then show ?thesis by (simp add: frozen_def)
  qed
  have 3: "(\<forall>s'. deposit s sender val g \<noteq> Inr s') \<and>
       (0 < val \<longrightarrow> deposit s sender val g = Inl (Revert ''Goal has already been withdrawn''))"
    if "isWithdrawn (goals s g)" for sender val g
  proof -
    from st that have "goalExists s g" by (simp add: settled_def frozen_def)
    with that show ?thesis by (auto simp: deposit_def)
  qed
  from 1 2 3 show ?thesis by blast
qed

theorem withdrawn_goal_stays_empty_witness:
  "reachable paidOut \<and> isWithdrawn (goals paidOut 0) \<and> balance (goals paidOut 0) = 0 \<and>
   isWithdrawn (goals (step 20 paidOut (Deposit 2 5 0)) 0) \<and>
   balance (goals (step 20 paidOut (Deposit 2 5 0)) 0) = 0 \<and>
   isWithdrawn (goals (step 200 paidOut (Withdraw 1 0 [] True)) 0) \<and>
   (0 :: uint256) < 5 \<and>
   deposit paidOut 2 5 0 = Inl (Revert ''Goal has already been withdrawn'')"
  using withdrawn_goal_stays_empty [OF reachable_paidOut] reachable_paidOut
  by (simp add: paidOut_goals)

subsection \<open>The index of goals by owner\<close>

lemma createdBy_append: "createdBy a (es @ fs) = createdBy a es @ createdBy a fs"
  by (simp add: createdBy_def)

lemma chronological_preserved:
  "chronological s \<longrightarrow> (\<forall>s'. exec now s c = Inr s' \<longrightarrow> chronological s')"
  by (rule exec_run_preserve(1) [where P = chronological])
    (auto simp: chronological_def createGoal_Inr deposit_Inr createdBy_append, auto simp: createdBy_def)

lemma reachable_chronological: "reachable s \<Longrightarrow> chronological s"
proof (induction rule: reachable.induct)
  case init
  show ?case by (simp add: chronological_def deployed_def createdBy_def)
next
  case (step s now c s')
  with chronological_preserved [of s now c] show ?case by blast
qed

lemma indexed_preserved:
  "indexed s \<longrightarrow> (\<forall>s'. exec now s c = Inr s' \<longrightarrow> indexed s')"
proof (rule exec_run_preserve(1) [where P = indexed])
  fix s sender now ttl descr target dl g s'
  assume ix: "indexed s" and c: "createGoal s sender now ttl descr target dl = Inr (g, s')"
  from c have "nextGoalId s \<noteq> - 1" by (simp add: createGoal_Inr)
  then have "unat (nextGoalId s) + 1 < 2 ^ 256" using succ_fits_iff by blast
  note lt = less_succ_iff [OF this]
  from c have s': "nextGoalId s' = nextGoalId s + 1"
    "goals s' = (goals s)(nextGoalId s :=
       \<lparr>owner = sender, title = ttl, description = descr, targetAmount = target,
        deadline = dl, balance = 0, isWithdrawn = False\<rparr>)"
    "ownerGoals s' = (ownerGoals s)(sender := ownerGoals s sender @ [nextGoalId s])"
    by (simp_all add: createGoal_Inr)
  show "indexed s'"
    unfolding indexed_def
  proof (intro allI conjI)
    fix a
    from ix have below: "\<forall>x \<in> set (ownerGoals s a). x < nextGoalId s"
      by (auto simp: indexed_def goalExists_def)
    with ix show "sorted_wrt (<) (ownerGoals s' a)"
      by (auto simp: s' indexed_def sorted_wrt_append)
    from ix have "set (ownerGoals s a) = {g. g < nextGoalId s \<and> owner (goals s g) = a}"
      by (simp add: indexed_def goalExists_def)
    then show "set (ownerGoals s' a) = {g. goalExists s' g \<and> owner (goals s' g) = a}"
      by (auto simp: s' goalExists_def lt)
  qed
next
  fix s sender val g s'
  assume "indexed s" "deposit s sender val g = Inr s'"
  then show "indexed s'"
    by (auto simp: indexed_def goalExists_def deposit_Inr)
next
  fix s g
  assume "indexed s" "goalExists s g" "\<not> isWithdrawn (goals s g)"
  then show "indexed (s\<lparr>goals := (goals s)(g := (goals s g)\<lparr>isWithdrawn := True, balance := 0\<rparr>)\<rparr>)"
    by (auto simp: indexed_def goalExists_def)
qed (auto simp: indexed_def goalExists_def)

lemma reachable_indexed: "reachable s \<Longrightarrow> indexed s"
proof (induction rule: reachable.induct)
  case init
  show ?case by (simp add: indexed_def deployed_def goalExists_def)
next
  case (step s now c s')
  with indexed_preserved [of s now c] show ?case by blast
qed

text \<open>
  Claim C7. In every reachable state \<^verbatim>\<open>getGoalsByOwner\<close> gives, for every address, the
  ids of the goals that exist and have this owner, each once (the list is strictly
  increasing and its set is the set of these ids), in the order of creation (it is the
  list of the ids in the \<^verbatim>\<open>GoalCreated\<close> events of this owner, in the order of the log;
  ids are handed out in increasing order). For an address that owns no goal the list is
  empty. The function is a \<^verbatim>\<open>view\<close> without \<^verbatim>\<open>require\<close>: it is total.
\<close>

theorem getGoalsByOwner_exact:
  assumes "reachable s"
  shows "getGoalsByOwner s a = createdBy a (emitted s) \<and>
    sorted_wrt (<) (getGoalsByOwner s a) \<and> distinct (getGoalsByOwner s a) \<and>
    set (getGoalsByOwner s a) = {g. goalExists s g \<and> owner (goals s g) = a} \<and>
    ((\<forall>g. goalExists s g \<longrightarrow> owner (goals s g) \<noteq> a) \<longrightarrow> getGoalsByOwner s a = [])"
proof -
  from assms have "indexed s" by (rule reachable_indexed)
  then have srt: "sorted_wrt (<) (ownerGoals s a)"
    and st: "set (ownerGoals s a) = {g. goalExists s g \<and> owner (goals s g) = a}"
    by (simp_all add: indexed_def)
  from srt have "distinct (ownerGoals s a)"
    by (simp add: strict_sorted_iff)
  moreover have "ownerGoals s a = []" if "\<forall>g. goalExists s g \<longrightarrow> owner (goals s g) \<noteq> a"
  proof -
    from st that have "set (ownerGoals s a) = {}" by auto
    then show ?thesis by simp
  qed
  moreover from assms have "ownerGoals s a = createdBy a (emitted s)"
    using reachable_chronological by (simp add: chronological_def)
  ultimately show ?thesis using srt st by (simp add: getGoalsByOwner_def)
qed


theorem getGoalsByOwner_exact_witness:
  "reachable funded \<and> getGoalsByOwner funded 1 = [0, 2] \<and> getGoalsByOwner funded 2 = [1] \<and>
   createdBy 1 (emitted funded) = [0, 2] \<and>
   sorted_wrt (<) [0, 2 :: uint256] \<and>
   {g. goalExists funded g \<and> owner (goals funded g) = 1} = {0, 2} \<and>
   {g. goalExists funded g \<and> owner (goals funded g) = 2} = {1} \<and>
   \<not> (\<exists>g. goalExists funded g \<and> owner (goals funded g) = 3) \<and>
   getGoalsByOwner funded 3 = []"
proof -
  note t = getGoalsByOwner_exact [OF reachable_funded]
  have l: "getGoalsByOwner funded 1 = [0, 2]" "getGoalsByOwner funded 2 = [1]"
    "getGoalsByOwner funded 3 = []"
    by (simp_all add: getGoalsByOwner_def funded_index)
  from t [of 1] have 1: "createdBy 1 (emitted funded) = [0, 2]"
    "{g. goalExists funded g \<and> owner (goals funded g) = 1} = {0, 2}"
    unfolding l by simp_all
  from t [of 2] have 2: "{g. goalExists funded g \<and> owner (goals funded g) = 2} = {1}"
    unfolding l by simp
  from t [of 3] have none: "\<forall>g. goalExists funded g \<longrightarrow> owner (goals funded g) \<noteq> 3"
    unfolding l by auto
  with t [of 3] have 3: "getGoalsByOwner funded 3 = []" by blast
  from none have "\<not> (\<exists>g. goalExists funded g \<and> owner (goals funded g) = 3)" by blast
  with reachable_funded l(1,2) 1 2 3 show ?thesis by simp
qed

end
